theory Spec2Isabelle
  imports Main "HOL-Library.AList"
begin

section \<open>Values of the host language\<close>

text \<open>
  The service core of \<^verbatim>\<open>src/server/core/ice-service.js\<close> works on untyped values:
  request parameters, entity fields and identifiers. They are modelled by one datatype.
  Numbers are integers (identifiers of the store are integers or strings), an object is
  the list of its own properties in insertion order.
\<close>

datatype jsval =
    Undefined
  | Null
  | Bool bool
  | Num int
  | Str string
  | Arr "jsval list"
  | Obj "(string \<times> jsval) list"

type_synonym entity = "(string \<times> jsval) list"

text \<open>Truthiness, as tested by \<^verbatim>\<open>if (v)\<close>, \<^verbatim>\<open>a || b\<close> and \<^verbatim>\<open>_.compact\<close>.\<close>

fun truthy :: "jsval \<Rightarrow> bool" where
  "truthy Undefined = False"
| "truthy Null = False"
| "truthy (Bool b) = b"
| "truthy (Num n) = (n \<noteq> 0)"
| "truthy (Str s) = (s \<noteq> [])"
| "truthy (Arr xs) = True"
| "truthy (Obj fs) = True"

text \<open>
  \<^verbatim>\<open>a || b\<close> on optional strings (\<open>None\<close> is \<^verbatim>\<open>undefined\<close>): the left operand when
  it is a non-empty string, the right operand otherwise.
\<close>

definition js_or :: "string option \<Rightarrow> string option \<Rightarrow> string option" where
  "js_or a b = (case a of None \<Rightarrow> b | Some s \<Rightarrow> if s = [] then b else a)"

text \<open>\<^verbatim>\<open>String.prototype.toLowerCase\<close>, on the ASCII letters.\<close>

definition lower_char :: "char \<Rightarrow> char" where
  "lower_char c =
     (case map_of (zip ''ABCDEFGHIJKLMNOPQRSTUVWXYZ'' ''abcdefghijklmnopqrstuvwxyz'') c of
        None \<Rightarrow> c
      | Some d \<Rightarrow> d)"

definition toLowerCase :: "string \<Rightarrow> string" where
  "toLowerCase s = map lower_char s"

section \<open>Descriptors\<close>

text \<open>
  The constants of \<^verbatim>\<open>core/constants\<close> that the service core reads. The values are
  set in that module, not in the service core, so the two role names are parameters of
  the model.
\<close>

record constants =
  ROLE_USER :: string
  ROLE_ADMIN :: string

text \<open>
  An action descriptor. An absent field is \<open>None\<close>. \<open>publish\<close> is tested with
  \<^verbatim>\<open>=== false\<close>, so only \<open>Some False\<close> unpublishes.
\<close>

record action =
  name :: "string option"
  permission :: "string option"
  role :: "string option"
  publish :: "bool option"
  defaultMethod :: "string option"
  needModel :: bool

text \<open>
  An entry of \<^verbatim>\<open>schema.actions\<close> is either a bare handler function or a descriptor
  object. The handler itself plays no part in publishing.
\<close>

datatype handler_decl = Inline | Full action

text \<open>The query-protocol block a service declares (\<^verbatim>\<open>schema.graphql\<close>).\<close>

record graphql_schema =
  query :: string
  mutation :: string
  resolvers :: "(string \<times> (string \<times> string) list) list"

text \<open>
  A property filter is a space-separated string or a list of property names
  (\<^verbatim>\<open>settings.modelPropFilter\<close>, the \<open>propFilter\<close> argument of \<^verbatim>\<open>toJSON\<close>).
\<close>

datatype prop_filter = FilterString string | FilterList "string list"

text \<open>
  The settings of a service. \<open>modelPopulates\<close> is the default population schema: the
  fields to populate, each with its target (an action name when it is a string), in
  enumeration order.
\<close>

record settings =
  namespace :: "string option"
  rest :: bool
  ws :: bool
  graphql :: bool
  settings_permission :: "string option"
  settings_role :: "string option"
  hashedIdentity :: bool
  latestVersion :: "nat option"
  modelPropFilter :: "prop_filter option"
  modelPopulates :: "(string \<times> jsval) list option"

text \<open>
  The part of a service that \<^verbatim>\<open>publishActions\<close> reads: its name and version, its
  settings, the entries of \<^verbatim>\<open>schema.actions\<close> in enumeration order (\<open>None\<close> when the
  schema has no actions) and \<^verbatim>\<open>schema.graphql\<close>.
\<close>

record service =
  service_name :: string
  version :: "nat option"
  settings :: settings
  actions :: "(string \<times> handler_decl) list option"
  schema_graphql :: "graphql_schema option"

record route =
  r_method :: string
  r_path :: string
  r_action :: string
  r_permission :: "string option"
  r_role :: "string option"

record ws_route =
  w_path :: string
  w_action :: string
  w_permission :: "string option"
  w_role :: "string option"

record publish_schema =
  p_namespace :: string
  p_version :: "nat option"
  p_latestVersion :: "nat option"
  p_hashedIdentity :: bool
  p_idParamName :: string
  p_rest :: "route list option"
  p_ws :: "ws_route list option"
  p_graphql :: "graphql_schema option"

section \<open>publishActions\<close>

definition ns_of :: "service \<Rightarrow> string" where
  "ns_of svc =
     (case namespace (settings svc) of
        None \<Rightarrow> service_name svc
      | Some n \<Rightarrow> if n = [] then service_name svc else n)"

definition idParamName :: "service \<Rightarrow> string" where
  "idParamName svc = (if hashedIdentity (settings svc) then ''code'' else ''id'')"

text \<open>The object \<^verbatim>\<open>{ handler }\<close> built for a bare handler function.\<close>

definition bare_action :: action where
  "bare_action =
     \<lparr>name = None, permission = None, role = None, publish = None,
      defaultMethod = None, needModel = False\<rparr>"

definition action_of :: "handler_decl \<Rightarrow> action" where
  "action_of h = (case h of Inline \<Rightarrow> bare_action | Full a \<Rightarrow> a)"

definition unpublished :: "handler_decl \<Rightarrow> bool" where
  "unpublished h = (publish (action_of h) = Some False)"

text \<open>\<^verbatim>\<open>action.name || actionName\<close>\<close>

definition name_of :: "string \<Rightarrow> action \<Rightarrow> string" where
  "name_of actionName a =
     (case name a of None \<Rightarrow> actionName | Some n \<Rightarrow> if n = [] then actionName else n)"

text \<open>The three assignments to \<^verbatim>\<open>action.name\<close>, \<^verbatim>\<open>action.permission\<close> and \<^verbatim>\<open>action.role\<close>.\<close>

definition fill_defaults :: "constants \<Rightarrow> service \<Rightarrow> string \<Rightarrow> action \<Rightarrow> action" where
  "fill_defaults C svc actionName a =
     a\<lparr>name := Some (name_of actionName a),
       permission := js_or (permission a) (settings_permission (settings svc)),
       role := js_or (js_or (role a) (settings_role (settings svc))) (Some (ROLE_USER C))\<rparr>"

definition actionCallName :: "service \<Rightarrow> string \<Rightarrow> action \<Rightarrow> string" where
  "actionCallName svc actionName a = service_name svc @ ''.'' @ name_of actionName a"

text \<open>
  \<^verbatim>\<open>addRoute(method, path, insert)\<close>: \<^verbatim>\<open>unshift\<close> puts the route at the front of the
  list when \<open>insert\<close> is set, \<^verbatim>\<open>push\<close> puts it at the end otherwise. The action is the
  one with its defaults filled in.
\<close>

definition mk_route :: "service \<Rightarrow> string \<Rightarrow> action \<Rightarrow> string \<Rightarrow> string \<Rightarrow> route" where
  "mk_route svc actionName a m p =
     \<lparr>r_method = m, r_path = p, r_action = actionCallName svc actionName a,
      r_permission = permission a, r_role = role a\<rparr>"

definition addRoute :: "route \<Rightarrow> bool \<Rightarrow> route list \<Rightarrow> route list" where
  "addRoute r ins routes = (if ins then r # routes else routes @ [r])"

definition plain_path :: "service \<Rightarrow> string \<Rightarrow> action \<Rightarrow> string" where
  "plain_path svc actionName a = ''/'' @ ns_of svc @ ''/'' @ name_of actionName a"

definition id_path :: "service \<Rightarrow> string \<Rightarrow> action \<Rightarrow> string" where
  "id_path svc actionName a =
     ''/'' @ ns_of svc @ ''/:'' @ idParamName svc @ ''/'' @ name_of actionName a"

definition shortcut_path :: "service \<Rightarrow> action \<Rightarrow> string" where
  "shortcut_path svc a =
     (if needModel a then ''/'' @ ns_of svc @ ''/:'' @ idParamName svc
      else ''/'' @ ns_of svc)"

text \<open>\<^verbatim>\<open>if (action.defaultMethod)\<close>: the method when it is a non-empty string.\<close>

definition default_method :: "action \<Rightarrow> string option" where
  "default_method a =
     (case defaultMethod a of None \<Rightarrow> None | Some m \<Rightarrow> if m = [] then None else Some m)"

text \<open>The request/response part of the loop body, for an action with filled defaults.\<close>

definition rest_step :: "service \<Rightarrow> string \<Rightarrow> action \<Rightarrow> route list \<Rightarrow> route list" where
  "rest_step svc actionName a routes =
     (let r1 = addRoute (mk_route svc actionName a ''get'' (plain_path svc actionName a)) True routes;
          r2 = addRoute (mk_route svc actionName a ''post'' (plain_path svc actionName a)) True r1;
          r3 = addRoute (mk_route svc actionName a ''get'' (id_path svc actionName a)) True r2;
          r4 = addRoute (mk_route svc actionName a ''post'' (id_path svc actionName a)) True r3
      in case default_method a of
           None \<Rightarrow> r4
         | Some m \<Rightarrow> addRoute (mk_route svc actionName a (toLowerCase m) (shortcut_path svc a)) False r4)"

definition ws_step :: "service \<Rightarrow> string \<Rightarrow> action \<Rightarrow> ws_route list \<Rightarrow> ws_route list" where
  "ws_step svc actionName a routes =
     routes @ [\<lparr>w_path = plain_path svc actionName a,
                w_action = actionCallName svc actionName a,
                w_permission = permission a, w_role = role a\<rparr>]"

text \<open>
  The body of the \<^verbatim>\<open>_.forIn\<close> callback. It returns the entry as the loop leaves it (a
  descriptor object is updated in place, the wrapper of a bare handler is dropped) and the
  two route lists.
\<close>

definition publish_step ::
  "constants \<Rightarrow> service \<Rightarrow> string \<Rightarrow> handler_decl \<Rightarrow> route list \<Rightarrow> ws_route list
   \<Rightarrow> handler_decl \<times> route list \<times> ws_route list" where
  "publish_step C svc actionName h rs wss =
     (if publish (action_of h) = Some False then (h, rs, wss)
      else
        let a = fill_defaults C svc actionName (action_of h)
        in ((case h of Inline \<Rightarrow> Inline | Full _ \<Rightarrow> Full a),
            (if rest (settings svc) then rest_step svc actionName a rs else rs),
            (if ws (settings svc) then ws_step svc actionName a wss else wss)))"

fun forIn_actions ::
  "constants \<Rightarrow> service \<Rightarrow> (string \<times> handler_decl) list \<Rightarrow> route list \<Rightarrow> ws_route list
   \<Rightarrow> (string \<times> handler_decl) list \<times> route list \<times> ws_route list" where
  "forIn_actions C svc [] rs wss = ([], rs, wss)"
| "forIn_actions C svc ((actionName, h) # entries) rs wss =
     (case publish_step C svc actionName h rs wss of
        (h', rs', wss') \<Rightarrow>
          (case forIn_actions C svc entries rs' wss' of
             (acts, rs'', wss'') \<Rightarrow> ((actionName, h') # acts, rs'', wss'')))"

text \<open>
  \<^verbatim>\<open>publishActions\<close> returns the schema it hands to \<^verbatim>\<open>www.publish\<close> (\<open>None\<close> for the
  early return on a schema without actions) together with the service, whose action
  descriptors the loop has updated.
\<close>

definition publishActions :: "constants \<Rightarrow> service \<Rightarrow> publish_schema option \<times> service" where
  "publishActions C svc =
     (case actions svc of
        None \<Rightarrow> (None, svc)
      | Some acts \<Rightarrow>
          (case forIn_actions C svc acts [] [] of
             (acts', rs, wss) \<Rightarrow>
               (Some \<lparr>p_namespace = ns_of svc,
                      p_version = version svc,
                      p_latestVersion = latestVersion (settings svc),
                      p_hashedIdentity = hashedIdentity (settings svc),
                      p_idParamName = idParamName svc,
                      p_rest = (if rest (settings svc) then Some rs else None),
                      p_ws = (if ws (settings svc) then Some wss else None),
                      p_graphql = (if graphql (settings svc) then schema_graphql svc else None)\<rparr>,
                svc\<lparr>actions := Some acts'\<rparr>)))"


section \<open>Property keys and comparison\<close>

text \<open>Decimal notation of an integer, as \<^verbatim>\<open>String(n)\<close> gives it.\<close>

fun show_nat :: "nat \<Rightarrow> string" where
  "show_nat n =
     (if n < 10 then [''0123456789'' ! n]
      else show_nat (n div 10) @ [''0123456789'' ! (n mod 10)])"

declare show_nat.simps [simp del]

definition show_int :: "int \<Rightarrow> string" where
  "show_int i = (if i < 0 then ''-'' @ show_nat (nat (- i)) else show_nat (nat i))"

fun join_comma :: "string list \<Rightarrow> string" where
  "join_comma [] = []"
| "join_comma [s] = s"
| "join_comma (s # t # ss) = s @ '','' @ join_comma (t # ss)"

text \<open>
  The string a value is converted to when it is used as a property key
  (\<^verbatim>\<open>obj[value]\<close>). An array joins its elements with commas, \<^verbatim>\<open>null\<close> and
  \<^verbatim>\<open>undefined\<close> elements giving the empty string; a plain object gives
  \<^verbatim>\<open>[object Object]\<close>.
\<close>

fun toString :: "jsval \<Rightarrow> string" where
  "toString Undefined = ''undefined''"
| "toString Null = ''null''"
| "toString (Bool b) = (if b then ''true'' else ''false'')"
| "toString (Num n) = show_int n"
| "toString (Str s) = s"
| "toString (Arr xs) =
     join_comma (map (\<lambda>v. if v = Undefined \<or> v = Null then [] else toString v) xs)"
| "toString (Obj fs) = ''[object Object]''"

definition nullish :: "jsval \<Rightarrow> bool" where
  "nullish v = (v = Undefined \<or> v = Null)"

definition is_object :: "jsval \<Rightarrow> bool" where
  "is_object v = (case v of Arr _ \<Rightarrow> True | Obj _ \<Rightarrow> True | _ \<Rightarrow> False)"

definition to_primitive :: "jsval \<Rightarrow> jsval" where
  "to_primitive v =
     (case v of
        Arr _ \<Rightarrow> Str (toString v)
      | Obj _ \<Rightarrow> Str (toString v)
      | Bool b \<Rightarrow> Num (if b then 1 else 0)
      | _ \<Rightarrow> v)"

text \<open>
  The comparison \<^verbatim>\<open>x == y\<close>. \<^verbatim>\<open>null\<close> and \<^verbatim>\<open>undefined\<close> equal each other and
  nothing else; booleans compare as numbers, arrays and objects as their strings; a
  number and a string are compared after the string is converted to a number. That
  conversion is the language's own and is a parameter \<open>N\<close> here (\<open>None\<close> when the
  string denotes no integer). Two arrays or objects are equal only when they are one and
  the same object; values carry no identity in this model, and the operands compared by
  the service core never are the same object, so that case is \<open>False\<close>.
\<close>

definition loose_eq :: "(string \<Rightarrow> int option) \<Rightarrow> jsval \<Rightarrow> jsval \<Rightarrow> bool" where
  "loose_eq N x y =
     (if nullish x \<or> nullish y then nullish x \<and> nullish y
      else if is_object x \<and> is_object y then False
      else (case (to_primitive x, to_primitive y) of
              (Num a, Num b) \<Rightarrow> a = b
            | (Str a, Str b) \<Rightarrow> a = b
            | (Num a, Str b) \<Rightarrow> N b = Some a
            | (Str a, Num b) \<Rightarrow> N a = Some b
            | _ \<Rightarrow> False))"

text \<open>
  Reading and writing a property of an entity: \<^verbatim>\<open>doc[field]\<close>, \<^verbatim>\<open>doc[field] = v\<close>.
  An entity is a plain object; only its own properties are modelled, and a property that
  is missing reads as \<^verbatim>\<open>undefined\<close>.
\<close>

definition getf :: "entity \<Rightarrow> string \<Rightarrow> jsval" where
  "getf doc field = (case map_of doc field of None \<Rightarrow> Undefined | Some v \<Rightarrow> v)"

definition setf :: "entity \<Rightarrow> string \<Rightarrow> jsval \<Rightarrow> entity" where
  "setf doc field v = AList.update field v doc"

section \<open>Errors, callers and collaborators\<close>

text \<open>
  The failures of the service core. The error classes live in \<^verbatim>\<open>core/errors\<close>; the
  constructors here are named after the kind of request error raised:
  \<open>InvalidIdentifier\<close> is the bad request with \<^verbatim>\<open>C.INVALID_CODE\<close>, \<open>Forbidden\<close> carries
  its message code. \<open>TypeError\<close> is the language's own error for a call of a method that
  the value does not have. A failure of the store or of a sub-invocation is passed on
  unchanged; the model keeps its cause under \<open>StoreFailure\<close> and \<open>DownstreamFailure\<close>.
\<close>

datatype error =
    InvalidIdentifier
  | Forbidden string
  | TypeError
  | StoreFailure string
  | DownstreamFailure string

record user =
  user_id :: jsval
  roles :: "string list"

text \<open>The parameters of a call that the core reads (\<^verbatim>\<open>ctx.params\<close>).\<close>

record params =
  param_id :: jsval
  param_code :: jsval
  resultAsObject :: jsval
  populate :: jsval
  propFilter :: jsval

text \<open>
  What the core calls but does not define: the conversion of a string to a number,
  \<^verbatim>\<open>_.pick\<close>, \<^verbatim>\<open>ctx.call\<close> (the name of the action and its parameters; \<open>Inl\<close> is a
  rejection), and the collection with its optional \<^verbatim>\<open>decodeID\<close> method and its two
  lookups. A lookup returns entities as \<^verbatim>\<open>toJSON\<close> of the stored documents gives them.
\<close>

record env =
  toNumber :: "string \<Rightarrow> int option"
  pick :: "entity \<Rightarrow> string list \<Rightarrow> entity"
  ctx_call :: "string \<Rightarrow> params \<Rightarrow> string + entity"
  decodeID :: "(jsval \<Rightarrow> jsval) option"
  find :: "jsval list \<Rightarrow> string + entity list"
  findById :: "jsval \<Rightarrow> string + entity option"

text \<open>
  What a pipeline stage holds: nothing (\<^verbatim>\<open>null\<close> or \<^verbatim>\<open>undefined\<close>), one entity or a
  sequence of entities.
\<close>

datatype docs = NoDocs | Single entity | Many "entity list"

section \<open>checkModelOwner\<close>

definition checkModelOwner ::
  "constants \<Rightarrow> env \<Rightarrow> entity \<Rightarrow> string \<Rightarrow> user \<Rightarrow> string option \<Rightarrow> error + entity" where
  "checkModelOwner C E model fieldName u errMessageCode =
     (if loose_eq (toNumber E) (getf model fieldName) (user_id u)
         \<or> ROLE_ADMIN C \<in> set (roles u)
      then Inr model
      else Inl (Forbidden (case errMessageCode of
                             None \<Rightarrow> ''app:YouAreNotTheOwner''
                           | Some c \<Rightarrow> c)))"

section \<open>toJSON\<close>

text \<open>\<^verbatim>\<open>s.split(" ")\<close>\<close>

fun split_spaces :: "string \<Rightarrow> string list" where
  "split_spaces [] = [[]]"
| "split_spaces (c # cs) =
     (if c = CHR '' '' then [] # split_spaces cs
      else (case split_spaces cs of
              [] \<Rightarrow> [[c]]
            | u # us \<Rightarrow> (c # u) # us))"

text \<open>
  The filter \<^verbatim>\<open>toJSON\<close> applies: its argument, or the service's \<open>modelPropFilter\<close> when
  the argument is absent; a string is split at spaces.
\<close>

definition filter_paths :: "settings \<Rightarrow> prop_filter option \<Rightarrow> string list option" where
  "filter_paths st pf =
     (case (case pf of None \<Rightarrow> modelPropFilter st | Some f \<Rightarrow> Some f) of
        None \<Rightarrow> None
      | Some (FilterString s) \<Rightarrow> Some (split_spaces s)
      | Some (FilterList l) \<Rightarrow> Some l)"

text \<open>The inner function \<open>func\<close> of \<^verbatim>\<open>toJSON\<close>, with the filter it closes over.\<close>

definition toJSON_doc :: "env \<Rightarrow> settings \<Rightarrow> prop_filter option \<Rightarrow> entity \<Rightarrow> entity" where
  "toJSON_doc E st pf doc =
     (case filter_paths st pf of None \<Rightarrow> doc | Some ps \<Rightarrow> pick E doc ps)"

definition toJSON :: "env \<Rightarrow> settings \<Rightarrow> docs \<Rightarrow> prop_filter option \<Rightarrow> docs" where
  "toJSON E st ds pf =
     (case ds of
        Many xs \<Rightarrow> Many (map (toJSON_doc E st pf) xs)
      | Single d \<Rightarrow> Single (toJSON_doc E st pf d)
      | NoDocs \<Rightarrow> NoDocs)"

section \<open>populateModels\<close>

definition compact :: "jsval list \<Rightarrow> jsval list" where
  "compact xs = filter truthy xs"

fun flatten_val :: "jsval \<Rightarrow> jsval list" where
  "flatten_val (Arr xs) = concat (map flatten_val xs)"
| "flatten_val v = [v]"

definition flattenDeep :: "jsval list \<Rightarrow> jsval list" where
  "flattenDeep xs = concat (map flatten_val xs)"

text \<open>
  \<^verbatim>\<open>_.uniq\<close> keeps the first occurrence of every value. The values compared here are
  identifiers, which are primitive; the library compares objects by identity, which the
  model does not have.
\<close>

fun uniq :: "jsval list \<Rightarrow> jsval list" where
  "uniq [] = []"
| "uniq (x # xs) = x # filter (\<lambda>y. y \<noteq> x) (uniq xs)"

definition items_of :: "docs \<Rightarrow> entity list" where
  "items_of ds = (case ds of Many xs \<Rightarrow> xs | Single d \<Rightarrow> [d] | NoDocs \<Rightarrow> [])"

text \<open>
  The identifiers collected for a field: the values of the field in all entities, the
  falsy ones dropped, then flattened, then made unique.
\<close>

definition idList :: "string \<Rightarrow> entity list \<Rightarrow> jsval list" where
  "idList field items = uniq (flattenDeep (compact (map (\<lambda>doc. getf doc field) items)))"

definition sub_params :: "jsval list \<Rightarrow> params" where
  "sub_params ids =
     \<lparr>param_id = Arr ids, param_code = Undefined, resultAsObject = Bool True,
      populate = Undefined, propFilter = Bool True\<rparr>"

text \<open>
  The \<^verbatim>\<open>_.forIn\<close> loop over the population schema. It runs to its end before any
  sub-invocation completes, so every identifier list is collected from the entities as
  they came in. The result lists the sub-invocations issued, in order: the field, the
  action called and the parameters.
\<close>

fun collect_calls ::
  "(string \<times> jsval) list \<Rightarrow> entity list \<Rightarrow> (string \<times> string \<times> params) list" where
  "collect_calls [] items = []"
| "collect_calls ((field, Str actionName) # schema) items =
     (if length (idList field items) > 0
      then (field, actionName, sub_params (idList field items)) # collect_calls schema items
      else collect_calls schema items)"
| "collect_calls ((field, v) # schema) items = collect_calls schema items"

text \<open>The callback of a completed sub-invocation, for one entity.\<close>

definition replaceField :: "string \<Rightarrow> entity \<Rightarrow> entity \<Rightarrow> entity" where
  "replaceField field populatedDocs doc =
     (case getf doc field of
        Arr ids \<Rightarrow>
          setf doc field (Arr (compact (map (\<lambda>i. getf populatedDocs (toString i)) ids)))
      | v \<Rightarrow> setf doc field (getf populatedDocs (toString v)))"

definition map_docs :: "(entity \<Rightarrow> entity) \<Rightarrow> docs \<Rightarrow> docs" where
  "map_docs f ds =
     (case ds of Many xs \<Rightarrow> Many (map f xs) | Single d \<Rightarrow> Single (f d) | NoDocs \<Rightarrow> NoDocs)"

text \<open>
  The completion of the sub-invocations. Each one that succeeds runs its callback on every
  entity. They touch different fields, so the order in which they complete does not
  matter; the model takes them in the order of issue. One rejection rejects the whole.
\<close>

fun apply_results ::
  "env \<Rightarrow> (string \<times> string \<times> params) list \<Rightarrow> docs \<Rightarrow> error + docs" where
  "apply_results E [] ds = Inr ds"
| "apply_results E ((field, actionName, ps) # calls) ds =
     (case ctx_call E actionName ps of
        Inl cause \<Rightarrow> Inl (DownstreamFailure cause)
      | Inr populatedDocs \<Rightarrow> apply_results E calls (map_docs (replaceField field populatedDocs) ds))"

text \<open>\<^verbatim>\<open>populateSchema || this.settings.modelPopulates\<close>\<close>

definition populate_schema ::
  "settings \<Rightarrow> (string \<times> jsval) list option \<Rightarrow> (string \<times> jsval) list option" where
  "populate_schema st populateSchema =
     (case populateSchema of None \<Rightarrow> modelPopulates st | Some s \<Rightarrow> Some s)"

text \<open>
  \<^verbatim>\<open>populateModels\<close> returns the sub-invocations it issued (action and parameters) and
  the outcome of its promise.
\<close>

definition populateModels ::
  "env \<Rightarrow> settings \<Rightarrow> docs \<Rightarrow> (string \<times> jsval) list option
   \<Rightarrow> (string \<times> params) list \<times> (error + docs)" where
  "populateModels E st ds populateSchema =
     (case populate_schema st populateSchema of
        None \<Rightarrow> ([], Inr ds)
      | Some schema \<Rightarrow>
          if ds = NoDocs then ([], Inr ds)
          else
            let calls = collect_calls schema (items_of ds)
            in if length calls > 0
               then (map snd calls, apply_results E calls ds)
               else ([], Inr ds))"

section \<open>resolveID and resolveModel\<close>

definition resolveID :: "env \<Rightarrow> settings \<Rightarrow> params \<Rightarrow> jsval" where
  "resolveID E st p =
     (if truthy (param_code p) \<and> hashedIdentity st
      then (case decodeID E of
              None \<Rightarrow> param_id p
            | Some dec \<Rightarrow>
                (case param_code p of
                   Arr codes \<Rightarrow> Arr (map dec codes)
                 | code \<Rightarrow> dec code))
      else param_id p)"

text \<open>\<^verbatim>\<open>id.length\<close>, for an identifier that is neither \<^verbatim>\<open>null\<close> nor \<^verbatim>\<open>undefined\<close>.\<close>

definition js_length :: "jsval \<Rightarrow> jsval" where
  "js_length v =
     (case v of
        Str s \<Rightarrow> Num (int (length s))
      | Arr xs \<Rightarrow> Num (int (length xs))
      | Obj fs \<Rightarrow> getf fs ''length''
      | _ \<Rightarrow> Undefined)"

text \<open>\<^verbatim>\<open>id == null || id.length == 0\<close>\<close>

definition invalid_id :: "env \<Rightarrow> jsval \<Rightarrow> bool" where
  "invalid_id E v = (nullish v \<or> loose_eq (toNumber E) (js_length v) (Num 0))"

datatype store_query = Find "jsval list" | FindById jsval

text \<open>
  The first two steps of the promise chain: the identifier is resolved and checked, the
  store is queried, the documents are converted. The queries sent to the store are
  returned with the outcome.
\<close>

definition lookup_docs :: "env \<Rightarrow> settings \<Rightarrow> params \<Rightarrow> store_query list \<times> (error + docs)" where
  "lookup_docs E st p =
     (let v = resolveID E st p
      in if invalid_id E v then ([], Inl InvalidIdentifier)
         else (case v of
                 Arr ids \<Rightarrow>
                   ([Find ids],
                    (case find E ids of
                       Inl cause \<Rightarrow> Inl (StoreFailure cause)
                     | Inr xs \<Rightarrow> Inr (Many xs)))
               | _ \<Rightarrow>
                   ([FindById v],
                    (case findById E v of
                       Inl cause \<Rightarrow> Inl (StoreFailure cause)
                     | Inr None \<Rightarrow> Inr NoDocs
                     | Inr (Some d) \<Rightarrow> Inr (Single d)))))"

text \<open>
  The inner function \<open>filterProperties\<close> of \<^verbatim>\<open>resolveModel\<close>. It hands one entity to
  \<^verbatim>\<open>toJSON\<close>, with the filter of the parameters when that is a string.
\<close>

definition filterProperties :: "env \<Rightarrow> settings \<Rightarrow> params \<Rightarrow> entity \<Rightarrow> entity" where
  "filterProperties E st p doc =
     (if \<not> nullish (propFilter p)
      then (case toJSON E st (Single doc)
                   (case propFilter p of Str s \<Rightarrow> Some (FilterString s) | _ \<Rightarrow> None) of
              Single d \<Rightarrow> d
            | _ \<Rightarrow> doc)
      else doc)"

text \<open>
  The result of \<^verbatim>\<open>resolveModel\<close>: the entities as they are, or the object that maps the
  key of each identifier to its entity.
\<close>

datatype shaped = Plain docs | Keyed entity

text \<open>
  The last step of the chain. \<^verbatim>\<open>docs.map\<close> exists on a sequence only: on one entity,
  and on a missing one, the call raises a type error.
\<close>

definition shape_result :: "env \<Rightarrow> settings \<Rightarrow> params \<Rightarrow> docs \<Rightarrow> error + shaped" where
  "shape_result E st p ds =
     (case ds of
        Many xs \<Rightarrow>
          if resultAsObject p = Bool True
          then Inr (Keyed (foldl (\<lambda>docsObj doc.
                    setf docsObj (toString (getf doc ''id'')) (Obj (filterProperties E st p doc)))
                  [] xs))
          else if \<not> nullish (propFilter p)
          then Inr (Plain (Many (map (filterProperties E st p) xs)))
          else Inr (Plain ds)
      | _ \<Rightarrow>
          if \<not> nullish (propFilter p) then Inl TypeError else Inr (Plain ds))"

text \<open>
  \<^verbatim>\<open>resolveModel\<close> returns the queries sent to the store, the sub-invocations issued and
  the outcome of the promise.
\<close>

definition resolveModel ::
  "env \<Rightarrow> settings \<Rightarrow> params
   \<Rightarrow> store_query list \<times> (string \<times> params) list \<times> (error + shaped)" where
  "resolveModel E st p =
     (case lookup_docs E st p of
        (queries, Inl e) \<Rightarrow> (queries, [], Inl e)
      | (queries, Inr ds) \<Rightarrow>
          (case (if populate p = Bool True then populateModels E st ds None else ([], Inr ds)) of
             (calls, Inl e) \<Rightarrow> (queries, calls, Inl e)
           | (calls, Inr ds') \<Rightarrow> (queries, calls, shape_result E st p ds')))"

section \<open>Notions used in the statements\<close>

text \<open>
  The four routes every published action gets, in the order in which four \<^verbatim>\<open>unshift\<close>
  calls leave them at the front of the list, and the shortcut route of an action with a
  default method.
\<close>

definition generic_routes :: "service \<Rightarrow> string \<Rightarrow> action \<Rightarrow> route list" where
  "generic_routes svc actionName a =
     [mk_route svc actionName a ''post'' (id_path svc actionName a),
      mk_route svc actionName a ''get'' (id_path svc actionName a),
      mk_route svc actionName a ''post'' (plain_path svc actionName a),
      mk_route svc actionName a ''get'' (plain_path svc actionName a)]"

definition shortcut_routes :: "service \<Rightarrow> string \<Rightarrow> action \<Rightarrow> route list" where
  "shortcut_routes svc actionName a =
     (case default_method a of
        None \<Rightarrow> []
      | Some m \<Rightarrow> [mk_route svc actionName a (toLowerCase m) (shortcut_path svc a)])"

text \<open>
  The routes one entry of \<^verbatim>\<open>schema.actions\<close> contributes, and the entry as the loop
  leaves it.
\<close>

definition entry_generic :: "constants \<Rightarrow> service \<Rightarrow> string \<times> handler_decl \<Rightarrow> route list" where
  "entry_generic C svc e =
     (if unpublished (snd e) \<or> \<not> rest (settings svc) then []
      else generic_routes svc (fst e) (fill_defaults C svc (fst e) (action_of (snd e))))"

definition entry_shortcut :: "constants \<Rightarrow> service \<Rightarrow> string \<times> handler_decl \<Rightarrow> route list" where
  "entry_shortcut C svc e =
     (if unpublished (snd e) \<or> \<not> rest (settings svc) then []
      else shortcut_routes svc (fst e) (fill_defaults C svc (fst e) (action_of (snd e))))"

definition entry_ws :: "constants \<Rightarrow> service \<Rightarrow> string \<times> handler_decl \<Rightarrow> ws_route list" where
  "entry_ws C svc e =
     (if unpublished (snd e) \<or> \<not> ws (settings svc) then []
      else ws_step svc (fst e) (fill_defaults C svc (fst e) (action_of (snd e))) [])"

definition updated_decl :: "constants \<Rightarrow> service \<Rightarrow> string \<times> handler_decl \<Rightarrow> string \<times> handler_decl" where
  "updated_decl C svc e =
     (case snd e of
        Inline \<Rightarrow> e
      | Full a \<Rightarrow> if publish a = Some False then e else (fst e, Full (fill_defaults C svc (fst e) a)))"

definition published :: "string \<times> handler_decl \<Rightarrow> bool" where
  "published e = (\<not> unpublished (snd e))"


text \<open>
  What a publish cycle emits: the request/response routes, the channel routes, the
  query-protocol block, and the actions that block binds resolvers to.
\<close>

definition rest_routes_of :: "constants \<Rightarrow> service \<Rightarrow> route list" where
  "rest_routes_of C svc =
     (case fst (publishActions C svc) of
        None \<Rightarrow> []
      | Some s \<Rightarrow> (case p_rest s of None \<Rightarrow> [] | Some rs \<Rightarrow> rs))"

definition ws_routes_of :: "constants \<Rightarrow> service \<Rightarrow> ws_route list" where
  "ws_routes_of C svc =
     (case fst (publishActions C svc) of
        None \<Rightarrow> []
      | Some s \<Rightarrow> (case p_ws s of None \<Rightarrow> [] | Some rs \<Rightarrow> rs))"

definition graphql_of :: "constants \<Rightarrow> service \<Rightarrow> graphql_schema option" where
  "graphql_of C svc =
     (case fst (publishActions C svc) of None \<Rightarrow> None | Some s \<Rightarrow> p_graphql s)"

definition bound_actions :: "graphql_schema \<Rightarrow> string list" where
  "bound_actions g = concat (map (\<lambda>root. map snd (snd root)) (resolvers g))"




section \<open>Example data\<close>

definition test_constants :: constants where
  "test_constants = \<lparr>ROLE_USER = ''user'', ROLE_ADMIN = ''admin''\<rparr>"




definition secret_action :: action where
  "secret_action =
     \<lparr>name = None, permission = None, role = None, publish = Some False,
      defaultMethod = None, needModel = False\<rparr>"

definition vault_graphql :: graphql_schema where
  "vault_graphql =
     \<lparr>query = ''secret: String'', mutation = [],
      resolvers = [(''Query'', [(''secret'', ''secret'')])]\<rparr>"

definition vault_service :: service where
  "vault_service =
     \<lparr>service_name = ''vault'', version = None,
      settings = \<lparr>namespace = None, rest = True, ws = True, graphql = True,
                  settings_permission = None, settings_role = None,
                  hashedIdentity = False, latestVersion = None,
                  modelPropFilter = None, modelPopulates = None\<rparr>,
      actions = Some [(''secret'', Full secret_action), (''list'', Inline)],
      schema_graphql = Some vault_graphql\<rparr>"

definition tagged_doc :: entity where
  "tagged_doc = [(''id'', Str ''a''), (''owner'', Str ''u1''), (''tags'', Arr [Str ''t1'', Str ''t2''])]"

text \<open>
  A tags service answers the sub-invocation of the population scenario; the store holds
  the entity \<open>a\<close>. The conversion of strings to numbers is a stand-in: the examples
  compare no number with a string.
\<close>

definition tags_result :: entity where
  "tags_result =
     [(''t1'', Obj [(''id'', Str ''t1''), (''label'', Str ''red'')]),
      (''t2'', Obj [(''id'', Str ''t2''), (''label'', Str ''blue'')])]"

definition test_env :: env where
  "test_env =
     \<lparr>toNumber = (\<lambda>s. None),
      pick = (\<lambda>doc ps. filter (\<lambda>kv. fst kv \<in> set ps) doc),
      ctx_call = (\<lambda>a ps. if a = ''tags.getByIds'' then Inr tags_result
                           else Inl ''no such action''),
      decodeID = None,
      find = (\<lambda>ids. Inr (if Str ''a'' \<in> set ids then [tagged_doc] else [])),
      findById = (\<lambda>v. Inr (if v = Str ''a'' then Some tagged_doc else None))\<rparr>"

definition test_settings :: settings where
  "test_settings =
     \<lparr>namespace = None, rest = True, ws = False, graphql = False,
      settings_permission = None, settings_role = None,
      hashedIdentity = True, latestVersion = None,
      modelPropFilter = None,
      modelPopulates = Some [(''tags'', Str ''tags.getByIds'')]\<rparr>"


definition code_only_params :: params where
  "code_only_params =
     \<lparr>param_id = Undefined, param_code = Str ''XYZ'', resultAsObject = Undefined,
      populate = Undefined, propFilter = Undefined\<rparr>"

definition point_lookup_params :: params where
  "point_lookup_params =
     \<lparr>param_id = Str ''a'', param_code = Undefined, resultAsObject = Bool True,
      populate = Undefined, propFilter = Bool True\<rparr>"


definition other_user :: user where
  "other_user = \<lparr>user_id = Str ''u2'', roles = [''user'']\<rparr>"

section \<open>The route list of publishActions\<close>

lemma rest_step_split:
  "rest_step svc k a rs = generic_routes svc k a @ rs @ shortcut_routes svc k a"
  by (simp add: rest_step_def generic_routes_def shortcut_routes_def addRoute_def Let_def
      split: option.splits)

lemma publish_step_rest:
  "fst (snd (publish_step C svc k h rs wss)) = entry_generic C svc (k, h) @ rs @ entry_shortcut C svc (k, h)"
  by (simp add: publish_step_def entry_generic_def entry_shortcut_def unpublished_def
      rest_step_split Let_def)

lemma forIn_rest:
  "fst (snd (forIn_actions C svc acts rs wss)) =
     concat (map (entry_generic C svc) (rev acts)) @ rs @ concat (map (entry_shortcut C svc) acts)"
proof (induction acts arbitrary: rs wss)
  case Nil
  show ?case by simp
next
  case (Cons e acts)
  obtain k h where e: "e = (k, h)" by (cases e)
  obtain h' rs' wss' where st: "publish_step C svc k h rs wss = (h', rs', wss')"
    by (cases "publish_step C svc k h rs wss")
  have rs': "rs' = entry_generic C svc (k, h) @ rs @ entry_shortcut C svc (k, h)"
    using publish_step_rest [of C svc k h rs wss] st by simp
  obtain acts' rs'' wss'' where rec: "forIn_actions C svc acts rs' wss' = (acts', rs'', wss'')"
    by (cases "forIn_actions C svc acts rs' wss'")
  have "rs'' = concat (map (entry_generic C svc) (rev acts)) @ rs' @ concat (map (entry_shortcut C svc) acts)"
    using Cons.IH [of rs' wss'] rec by simp
  moreover have "fst (snd (forIn_actions C svc (e # acts) rs wss)) = rs''"
    by (simp add: e st rec)
  ultimately show ?case
    by (simp add: rs' e)
qed

lemma publish_step_ws:
  "snd (snd (publish_step C svc k h rs wss)) = wss @ entry_ws C svc (k, h)"
  by (simp add: publish_step_def entry_ws_def unpublished_def ws_step_def Let_def)

lemma publish_step_decl:
  "(k, fst (publish_step C svc k h rs wss)) = updated_decl C svc (k, h)"
  by (simp add: publish_step_def updated_decl_def action_of_def Let_def split: handler_decl.splits)

lemma forIn_ws:
  "snd (snd (forIn_actions C svc acts rs wss)) = wss @ concat (map (entry_ws C svc) acts)"
proof (induction acts arbitrary: rs wss)
  case Nil
  show ?case by simp
next
  case (Cons e acts)
  obtain k h where e: "e = (k, h)" by (cases e)
  obtain h' rs' wss' where st: "publish_step C svc k h rs wss = (h', rs', wss')"
    by (cases "publish_step C svc k h rs wss")
  have wss': "wss' = wss @ entry_ws C svc (k, h)"
    using publish_step_ws [of C svc k h rs wss] st by simp
  obtain acts' rs'' wss'' where rec: "forIn_actions C svc acts rs' wss' = (acts', rs'', wss'')"
    by (cases "forIn_actions C svc acts rs' wss'")
  have "wss'' = wss' @ concat (map (entry_ws C svc) acts)"
    using Cons.IH [of rs' wss'] rec by simp
  moreover have "snd (snd (forIn_actions C svc (e # acts) rs wss)) = wss''"
    by (simp add: e st rec)
  ultimately show ?case
    by (simp add: wss' e)
qed

lemma forIn_decls:
  "fst (forIn_actions C svc acts rs wss) = map (updated_decl C svc) acts"
proof (induction acts arbitrary: rs wss)
  case Nil
  show ?case by simp
next
  case (Cons e acts)
  obtain k h where e: "e = (k, h)" by (cases e)
  obtain h' rs' wss' where st: "publish_step C svc k h rs wss = (h', rs', wss')"
    by (cases "publish_step C svc k h rs wss")
  have h': "(k, h') = updated_decl C svc (k, h)"
    using publish_step_decl [of k C svc h rs wss] st by simp
  obtain acts' rs'' wss'' where rec: "forIn_actions C svc acts rs' wss' = (acts', rs'', wss'')"
    by (cases "forIn_actions C svc acts rs' wss'")
  have "acts' = map (updated_decl C svc) acts"
    using Cons.IH [of rs' wss'] rec by simp
  moreover have "fst (forIn_actions C svc (e # acts) rs wss) = (k, h') # acts'"
    by (simp add: e st rec)
  ultimately show ?case
    by (simp add: h' e)
qed

lemma forIn_actions_eq:
  "forIn_actions C svc acts rs wss =
     (map (updated_decl C svc) acts,
      concat (map (entry_generic C svc) (rev acts)) @ rs @ concat (map (entry_shortcut C svc) acts),
      wss @ concat (map (entry_ws C svc) acts))"
  using forIn_decls [of C svc acts rs wss] forIn_rest [of C svc acts rs wss]
    forIn_ws [of C svc acts rs wss]
  by (cases "forIn_actions C svc acts rs wss") simp

lemma publishActions_eq:
  "actions svc = Some acts \<Longrightarrow>
   publishActions C svc =
      (Some \<lparr>p_namespace = ns_of svc, p_version = version svc,
             p_latestVersion = latestVersion (settings svc),
             p_hashedIdentity = hashedIdentity (settings svc),
             p_idParamName = idParamName svc,
             p_rest = (if rest (settings svc) then Some (concat (map (entry_generic C svc) (rev acts)) @ concat (map (entry_shortcut C svc) acts)) else None),
             p_ws = (if ws (settings svc) then Some (concat (map (entry_ws C svc) acts)) else None),
             p_graphql = (if graphql (settings svc) then schema_graphql svc else None)\<rparr>,
       svc\<lparr>actions := Some (map (updated_decl C svc) acts)\<rparr>)"
  by (simp add: publishActions_def forIn_actions_eq)

lemma rest_routes_of_eq:
  "actions svc = Some acts \<Longrightarrow>
   rest_routes_of C svc =
     concat (map (entry_generic C svc) (rev acts)) @ concat (map (entry_shortcut C svc) acts)"
  by (simp add: rest_routes_of_def publishActions_eq entry_generic_def entry_shortcut_def)

lemma ws_routes_of_eq:
  "actions svc = Some acts \<Longrightarrow> ws_routes_of C svc = concat (map (entry_ws C svc) acts)"
  by (simp add: ws_routes_of_def publishActions_eq entry_ws_def)

lemma graphql_of_eq:
  "actions svc = Some acts \<Longrightarrow>
   graphql_of C svc = (if graphql (settings svc) then schema_graphql svc else None)"
  by (simp add: graphql_of_def publishActions_eq)

lemma paths_indep_actions:
  "ns_of (svc\<lparr>actions := x\<rparr>) = ns_of svc"
  "idParamName (svc\<lparr>actions := x\<rparr>) = idParamName svc"
  "actionCallName (svc\<lparr>actions := x\<rparr>) = actionCallName svc"
  "fill_defaults C (svc\<lparr>actions := x\<rparr>) = fill_defaults C svc"
  by (simp_all add: fun_eq_iff ns_of_def idParamName_def actionCallName_def fill_defaults_def
      split: option.splits)

lemma routes_indep_actions:
  "generic_routes (svc\<lparr>actions := x\<rparr>) = generic_routes svc"
  "shortcut_routes (svc\<lparr>actions := x\<rparr>) = shortcut_routes svc"
  "ws_step (svc\<lparr>actions := x\<rparr>) = ws_step svc"
  by (simp_all add: fun_eq_iff generic_routes_def shortcut_routes_def ws_step_def mk_route_def
      id_path_def plain_path_def shortcut_path_def paths_indep_actions split: option.splits)

lemma entries_indep_actions:
  "entry_generic C (svc\<lparr>actions := x\<rparr>) = entry_generic C svc"
  "entry_shortcut C (svc\<lparr>actions := x\<rparr>) = entry_shortcut C svc"
  "entry_ws C (svc\<lparr>actions := x\<rparr>) = entry_ws C svc"
  "updated_decl C (svc\<lparr>actions := x\<rparr>) = updated_decl C svc"
  by (simp_all add: fun_eq_iff entry_generic_def entry_shortcut_def entry_ws_def updated_decl_def
      routes_indep_actions paths_indep_actions split: handler_decl.splits)


lemma fill_defaults_keeps:
  "publish (fill_defaults C svc k a) = publish a"
  "defaultMethod (fill_defaults C svc k a) = defaultMethod a"
  "needModel (fill_defaults C svc k a) = needModel a"
  by (simp_all add: fill_defaults_def)


subsection \<open>Claim C1: where the shortcut route stands\<close>




subsection \<open>Claim C2: actions that are not published\<close>

lemma concat_map_filter_nil:
  "(\<And>x. \<not> P x \<Longrightarrow> f x = []) \<Longrightarrow> concat (map f (filter P xs)) = concat (map f xs)"
  by (induction xs) auto

lemma rest_routes_from:
  assumes "actions svc = Some acts" and "r \<in> set (rest_routes_of C svc)"
  shows "\<exists>e \<in> set acts. published e \<and>
           r_action r = actionCallName svc (fst e) (action_of (snd e))"
proof -
  from assms have "r \<in> set (concat (map (entry_generic C svc) (rev acts)))
      \<or> r \<in> set (concat (map (entry_shortcut C svc) acts))"
    by (simp add: rest_routes_of_eq)
  then obtain e where e: "e \<in> set acts"
    and r: "r \<in> set (entry_generic C svc e) \<or> r \<in> set (entry_shortcut C svc e)"
    by auto
  from r have "published e \<and> r_action r = actionCallName svc (fst e) (action_of (snd e))"
    by (auto simp: entry_generic_def entry_shortcut_def published_def generic_routes_def
        shortcut_routes_def mk_route_def actionCallName_def name_of_def fill_defaults_def
        split: if_splits option.splits)
  with e show ?thesis by blast
qed

lemma ws_routes_from:
  assumes "actions svc = Some acts" and "r \<in> set (ws_routes_of C svc)"
  shows "\<exists>e \<in> set acts. published e \<and>
           w_action r = actionCallName svc (fst e) (action_of (snd e))"
proof -
  from assms obtain e where e: "e \<in> set acts" and r: "r \<in> set (entry_ws C svc e)"
    by (auto simp: ws_routes_of_eq)
  from r have "published e \<and> w_action r = actionCallName svc (fst e) (action_of (snd e))"
    by (auto simp: entry_ws_def published_def ws_step_def actionCallName_def name_of_def
        fill_defaults_def split: if_splits option.splits)
  with e show ?thesis by blast
qed

lemma rest_routes_filter:
  assumes "actions svc = Some acts"
  shows "rest_routes_of C (svc\<lparr>actions := Some (filter published acts)\<rparr>) = rest_routes_of C svc"
proof -
  have g: "\<And>e. \<not> published e \<Longrightarrow> entry_generic C svc e = []"
    and s: "\<And>e. \<not> published e \<Longrightarrow> entry_shortcut C svc e = []"
    by (simp_all add: published_def entry_generic_def entry_shortcut_def)
  have "actions (svc\<lparr>actions := Some (filter published acts)\<rparr>) = Some (filter published acts)"
    by simp
  from rest_routes_of_eq [OF this, of C] rest_routes_of_eq [OF assms, of C]
  show ?thesis
    by (simp add: entries_indep_actions rev_filter
        concat_map_filter_nil [of published, OF g] concat_map_filter_nil [of published, OF s])
qed

lemma ws_routes_filter:
  assumes "actions svc = Some acts"
  shows "ws_routes_of C (svc\<lparr>actions := Some (filter published acts)\<rparr>) = ws_routes_of C svc"
proof -
  have w: "\<And>e. \<not> published e \<Longrightarrow> entry_ws C svc e = []"
    by (simp add: published_def entry_ws_def)
  have "actions (svc\<lparr>actions := Some (filter published acts)\<rparr>) = Some (filter published acts)"
    by simp
  from ws_routes_of_eq [OF this, of C] ws_routes_of_eq [OF assms, of C]
  show ?thesis
    by (simp add: entries_indep_actions concat_map_filter_nil [of published, OF w])
qed

text \<open>
  Claim C2 says that an action with \<open>publish = false\<close> has no resolver binding in the
  published query-protocol schema. The service \<open>vault\<close> declares a resolver for its
  unpublished action \<open>secret\<close>; the published schema carries the declared block as it is,
  binding included.
\<close>

theorem unpublished_action_bound_in_graphql:
  "publish secret_action = Some False
   \<and> actions vault_service = Some [(''secret'', Full secret_action), (''list'', Inline)]
   \<and> graphql_of test_constants vault_service = Some vault_graphql
   \<and> ''secret'' \<in> set (bound_actions vault_graphql)"
proof -
  have a: "actions vault_service = Some [(''secret'', Full secret_action), (''list'', Inline)]"
    by (simp add: vault_service_def)
  show ?thesis
    using graphql_of_eq [OF a, of test_constants]
    by (simp add: vault_service_def secret_action_def bound_actions_def vault_graphql_def)
qed

text \<open>
  Claim C2, as the code has it: the request/response routes and the channel routes are
  those of the actions with \<open>publish \<noteq> false\<close> alone. Removing the other entries changes
  neither list, every route belongs to an entry that is published, and a service with
  unpublished actions only emits no route. The query-protocol block is handed on as the
  service declares it, whatever the \<open>publish\<close> flags are.
\<close>

theorem unpublished_actions_have_no_routes:
  assumes "actions svc = Some acts"
  shows "rest_routes_of C svc = rest_routes_of C (svc\<lparr>actions := Some (filter published acts)\<rparr>)
    \<and> ws_routes_of C svc = ws_routes_of C (svc\<lparr>actions := Some (filter published acts)\<rparr>)
    \<and> (\<forall>r \<in> set (rest_routes_of C svc). \<exists>e \<in> set acts.
          publish (action_of (snd e)) \<noteq> Some False
          \<and> r_action r = actionCallName svc (fst e) (action_of (snd e)))
    \<and> (\<forall>r \<in> set (ws_routes_of C svc). \<exists>e \<in> set acts.
          publish (action_of (snd e)) \<noteq> Some False
          \<and> w_action r = actionCallName svc (fst e) (action_of (snd e)))
    \<and> ((\<forall>e \<in> set acts. publish (action_of (snd e)) = Some False) \<longrightarrow>
          rest_routes_of C svc = [] \<and> ws_routes_of C svc = [])
    \<and> graphql_of C svc = (if graphql (settings svc) then schema_graphql svc else None)"
proof -
  have all: "(\<forall>e \<in> set acts. publish (action_of (snd e)) = Some False) \<longrightarrow>
          rest_routes_of C svc = [] \<and> ws_routes_of C svc = []"
    using rest_routes_from [OF assms, of _ C] ws_routes_from [OF assms, of _ C]
    by (metis published_def unpublished_def equals0I set_empty)
  show ?thesis
    using rest_routes_filter [OF assms, of C] ws_routes_filter [OF assms, of C]
      rest_routes_from [OF assms, of _ C] ws_routes_from [OF assms, of _ C]
      graphql_of_eq [OF assms, of C] all
    by (simp add: published_def unpublished_def)
qed

text \<open>
  On the service \<open>vault\<close> the routes are those of the published action \<open>list\<close>, and
  each belongs to \<open>vault.list\<close>.
\<close>

theorem unpublished_actions_have_no_routes_witness:
  "rest_routes_of test_constants vault_service =
     rest_routes_of test_constants (vault_service\<lparr>actions := Some [(''list'', Inline)]\<rparr>)
   \<and> list_all (\<lambda>r. r_action r = ''vault.list'') (rest_routes_of test_constants vault_service)
   \<and> rest_routes_of test_constants vault_service \<noteq> []"
proof -
  have a: "actions vault_service = Some [(''secret'', Full secret_action), (''list'', Inline)]"
    by (simp add: vault_service_def)
  have f: "filter published [(''secret'', Full secret_action), (''list'', Inline)] = [(''list'', Inline)]"
    by (simp add: published_def unpublished_def action_of_def secret_action_def bare_action_def)
  have n: "\<And>e. e \<in> set [(''secret'', Full secret_action), (''list'', Inline)] \<Longrightarrow>
      publish (action_of (snd e)) \<noteq> Some False \<Longrightarrow>
      actionCallName vault_service (fst e) (action_of (snd e)) = ''vault.list''"
    by (auto simp: action_of_def secret_action_def bare_action_def actionCallName_def
        name_of_def vault_service_def)
  have ne: "rest_routes_of test_constants vault_service \<noteq> []"
    using rest_routes_of_eq [OF a, of test_constants]
    by (simp add: entry_generic_def unpublished_def action_of_def bare_action_def
        generic_routes_def vault_service_def)
  note t = unpublished_actions_have_no_routes [OF a, of test_constants]
  from t f have 1: "rest_routes_of test_constants vault_service =
      rest_routes_of test_constants (vault_service\<lparr>actions := Some [(''list'', Inline)]\<rparr>)"
    by simp
  have 2: "\<forall>r \<in> set (rest_routes_of test_constants vault_service). r_action r = ''vault.list''"
  proof
    fix r assume "r \<in> set (rest_routes_of test_constants vault_service)"
    with t obtain e where "e \<in> set [(''secret'', Full secret_action), (''list'', Inline)]"
      and "publish (action_of (snd e)) \<noteq> Some False"
      and "r_action r = actionCallName vault_service (fst e) (action_of (snd e))"
      by blast
    with n show "r_action r = ''vault.list''" by simp
  qed
  from 1 2 ne show ?thesis by (simp add: list_all_iff)
qed

subsection \<open>Claim C8: what publishing does to the descriptors\<close>






subsection \<open>Claim C9: publishing twice\<close>

lemma js_or_idem: "js_or (js_or a b) b = js_or a b"
  by (simp add: js_or_def split: option.splits)

lemma js_or_idem3: "js_or (js_or (js_or (js_or a b) c) b) c = js_or (js_or a b) c"
  by (simp add: js_or_def split: option.splits)

lemma fill_defaults_idem:
  "fill_defaults C svc k (fill_defaults C svc k a) = fill_defaults C svc k a"
  by (simp add: fill_defaults_def name_of_def js_or_idem js_or_idem3 split: option.splits)

lemma updated_decl_idem:
  "updated_decl C svc (updated_decl C svc e) = updated_decl C svc e"
  by (cases e) (simp add: updated_decl_def fill_defaults_idem fill_defaults_keeps split: handler_decl.splits)

lemma unpublished_updated: "unpublished (snd (updated_decl C svc e)) = unpublished (snd e)"
  by (cases e) (simp add: updated_decl_def unpublished_def action_of_def fill_defaults_keeps split: handler_decl.splits)

lemma fst_updated: "fst (updated_decl C svc e) = fst e"
  by (cases e) (simp add: updated_decl_def split: handler_decl.splits)

lemma fill_updated:
  "\<not> unpublished (snd e) \<Longrightarrow>
   fill_defaults C svc (fst e) (action_of (snd (updated_decl C svc e))) =
   fill_defaults C svc (fst e) (action_of (snd e))"
  by (cases e) (simp add: updated_decl_def unpublished_def action_of_def fill_defaults_idem split: handler_decl.splits)

lemma entry_generic_updated: "entry_generic C svc (updated_decl C svc e) = entry_generic C svc e"
  by (simp add: entry_generic_def unpublished_updated fst_updated fill_updated)

lemma entry_shortcut_updated: "entry_shortcut C svc (updated_decl C svc e) = entry_shortcut C svc e"
  by (simp add: entry_shortcut_def unpublished_updated fst_updated fill_updated)

lemma entry_ws_updated: "entry_ws C svc (updated_decl C svc e) = entry_ws C svc e"
  by (simp add: entry_ws_def unpublished_updated fst_updated fill_updated)

text \<open>
  Claim C9: publishing is deterministic and idempotent. A second call of
  \<^verbatim>\<open>publishActions\<close>, on the service as the first call left it, returns the same schema
  as the first (the same routes in the same order: each call starts from empty route
  lists, so nothing is added to the earlier set) and leaves the service as it is.
\<close>

theorem republish_identical:
  "publishActions C (snd (publishActions C svc)) = publishActions C svc"
proof (cases "actions svc")
  case None
  then show ?thesis by (simp add: publishActions_def)
next
  case (Some acts)
  have 1: "publishActions C svc =
      (Some \<lparr>p_namespace = ns_of svc, p_version = version svc,
             p_latestVersion = latestVersion (settings svc),
             p_hashedIdentity = hashedIdentity (settings svc),
             p_idParamName = idParamName svc,
             p_rest = (if rest (settings svc) then Some (concat (map (entry_generic C svc) (rev acts)) @ concat (map (entry_shortcut C svc) acts)) else None),
             p_ws = (if ws (settings svc) then Some (concat (map (entry_ws C svc) acts)) else None),
             p_graphql = (if graphql (settings svc) then schema_graphql svc else None)\<rparr>,
       svc\<lparr>actions := Some (map (updated_decl C svc) acts)\<rparr>)"
    by (simp add: publishActions_def Some forIn_actions_eq)
  show ?thesis
    by (simp add: 1) (simp add: publishActions_def forIn_actions_eq entries_indep_actions
        paths_indep_actions rev_map [symmetric] comp_def
        entry_generic_updated entry_shortcut_updated entry_ws_updated updated_decl_idem)
qed

section \<open>checkModelOwner\<close>

lemma loose_eq_Str: "loose_eq N (Str a) (Str b) = (a = b)"
  by (simp add: loose_eq_def nullish_def is_object_def to_primitive_def)

lemma loose_eq_Num: "loose_eq N (Num a) (Num b) = (a = b)"
  by (simp add: loose_eq_def nullish_def is_object_def to_primitive_def)

text \<open>
  Claim C7: \<^verbatim>\<open>checkModelOwner\<close> returns the model when the caller holds the
  administrator role, whatever the owner field is, and when the owner field equals the
  caller's identifier (as \<^verbatim>\<open>==\<close> compares; in particular for the same string or the
  same number); otherwise it fails with \<open>Forbidden\<close>. A caller \<open>u2\<close> with the role
  \<open>user\<close> only is refused on the entity owned by \<open>u1\<close>.
\<close>

theorem checkModelOwner_owner_or_admin:
  "(ROLE_ADMIN C \<in> set (roles u) \<longrightarrow> checkModelOwner C E model fieldName u msg = Inr model)
   \<and> (loose_eq (toNumber E) (getf model fieldName) (user_id u) \<longrightarrow>
        checkModelOwner C E model fieldName u msg = Inr model)
   \<and> ((\<exists>s. getf model fieldName = Str s \<and> user_id u = Str s) \<longrightarrow>
        checkModelOwner C E model fieldName u msg = Inr model)
   \<and> ((\<exists>n. getf model fieldName = Num n \<and> user_id u = Num n) \<longrightarrow>
        checkModelOwner C E model fieldName u msg = Inr model)
   \<and> (\<not> loose_eq (toNumber E) (getf model fieldName) (user_id u) \<and> ROLE_ADMIN C \<notin> set (roles u) \<longrightarrow>
        (\<exists>c. checkModelOwner C E model fieldName u msg = Inl (Forbidden c)))
   \<and> (ROLE_ADMIN C \<noteq> ''user'' \<longrightarrow>
        checkModelOwner C E tagged_doc ''owner'' other_user None
          = Inl (Forbidden ''app:YouAreNotTheOwner''))"
  by (auto simp: checkModelOwner_def loose_eq_Str loose_eq_Num tagged_doc_def other_user_def getf_def)

text \<open>
  The caller \<open>u2\<close> is refused on the entity owned by \<open>u1\<close>, and passes once the
  administrator role is among its roles.
\<close>

theorem checkModelOwner_owner_or_admin_witness:
  "ROLE_ADMIN test_constants \<noteq> ''user''
   \<and> checkModelOwner test_constants test_env tagged_doc ''owner'' other_user None
       = Inl (Forbidden ''app:YouAreNotTheOwner'')
   \<and> checkModelOwner test_constants test_env tagged_doc ''owner''
        (other_user\<lparr>roles := [''user'', ''admin'']\<rparr>) None = Inr tagged_doc"
  using checkModelOwner_owner_or_admin [of test_constants other_user test_env tagged_doc
      "''owner''" None]
    checkModelOwner_owner_or_admin [of test_constants "other_user\<lparr>roles := [''user'', ''admin'']\<rparr>"
      test_env tagged_doc "''owner''" None]
  by (simp add: test_constants_def other_user_def)

section \<open>resolveModel: the identifier check\<close>

lemma lookup_invalid:
  "(snd (lookup_docs E st p) = Inl InvalidIdentifier) = invalid_id E (resolveID E st p)"
  by (simp add: lookup_docs_def Let_def split: jsval.splits sum.splits option.splits)

lemma lookup_invalid_queries:
  "invalid_id E (resolveID E st p) \<Longrightarrow> lookup_docs E st p = ([], Inl InvalidIdentifier)"
  by (simp add: lookup_docs_def)

lemma apply_results_error:
  "apply_results E calls ds = Inl e \<Longrightarrow> \<exists>c. e = DownstreamFailure c"
  by (induction E calls ds rule: apply_results.induct) (auto split: sum.splits)

lemma populateModels_error:
  "snd (populateModels E st ds sch) = Inl e \<Longrightarrow> \<exists>c. e = DownstreamFailure c"
  by (auto simp: populateModels_def Let_def split: option.splits if_splits
      dest: apply_results_error)

lemma shape_result_error: "shape_result E st p ds = Inl e \<Longrightarrow> e = TypeError"
  by (auto simp: shape_result_def split: docs.splits if_splits)

lemma invalid_id_iff:
  "invalid_id E v =
     (v = Undefined \<or> v = Null \<or> v = Str [] \<or> v = Arr []
      \<or> (\<exists>fs. v = Obj fs \<and> loose_eq (toNumber E) (getf fs ''length'') (Num 0)))"
  by (cases v)
    (auto simp: invalid_id_def nullish_def js_length_def loose_eq_def is_object_def
      to_primitive_def)

lemma resolveModel_invalid:
  "(snd (snd (resolveModel E st p)) = Inl InvalidIdentifier) = invalid_id E (resolveID E st p)"
proof (cases "invalid_id E (resolveID E st p)")
  case True
  then show ?thesis by (simp add: resolveModel_def lookup_invalid_queries)
next
  case False
  obtain qs r where l: "lookup_docs E st p = (qs, r)" by (cases "lookup_docs E st p")
  with False lookup_invalid [of E st p] have r: "r \<noteq> Inl InvalidIdentifier" by simp
  show ?thesis
  proof (cases r)
    case (Inl e)
    with r l False show ?thesis by (simp add: resolveModel_def)
  next
    case (Inr ds)
    obtain cs r' where pm: "(if populate p = Bool True then populateModels E st ds None else ([], Inr ds)) = (cs, r')"
      by (cases "(if populate p = Bool True then populateModels E st ds None else ([], Inr ds))")
    have r': "r' \<noteq> Inl InvalidIdentifier"
    proof
      assume a: "r' = Inl InvalidIdentifier"
      with pm have "snd (populateModels E st ds None) = Inl InvalidIdentifier"
        by (auto split: if_splits)
      from populateModels_error [OF this] show False by simp
    qed
    show ?thesis
    proof (cases r')
      case (Inl e)
      with r' l Inr pm False show ?thesis by (simp add: resolveModel_def)
    next
      case ds': (Inr ds')
      have "shape_result E st p ds' \<noteq> Inl InvalidIdentifier"
        using shape_result_error [of E st p ds' InvalidIdentifier] by auto
      with l Inr pm ds' False show ?thesis by (simp add: resolveModel_def)
    qed
  qed
qed

lemma resolveID_code_only:
  "truthy (param_code p) \<Longrightarrow> hashedIdentity st \<Longrightarrow> decodeID E = None \<Longrightarrow>
   resolveID E st p = param_id p"
  by (simp add: resolveID_def)

text \<open>
  Claim C3: \<^verbatim>\<open>resolveModel\<close> fails with \<open>InvalidIdentifier\<close> exactly when the resolved
  identifier is absent (\<^verbatim>\<open>undefined\<close> or \<^verbatim>\<open>null\<close>), the empty string, the empty
  sequence, or an object whose \<open>length\<close> compares equal to zero. In that case no query
  has been sent to the store and no sub-invocation issued. A call that gives a code only,
  on a service with hashed identities and no decode function, fails this way.
\<close>

theorem resolveModel_invalid_identifier:
  "(snd (snd (resolveModel E st p)) = Inl InvalidIdentifier) =
     (resolveID E st p = Undefined \<or> resolveID E st p = Null
      \<or> resolveID E st p = Str [] \<or> resolveID E st p = Arr []
      \<or> (\<exists>fs. resolveID E st p = Obj fs \<and> loose_eq (toNumber E) (getf fs ''length'') (Num 0)))
   \<and> (snd (snd (resolveModel E st p)) = Inl InvalidIdentifier \<longrightarrow>
        fst (resolveModel E st p) = [] \<and> fst (snd (resolveModel E st p)) = [])
   \<and> (truthy (param_code p) \<and> nullish (param_id p) \<and> hashedIdentity st \<and> decodeID E = None \<longrightarrow>
        resolveModel E st p = ([], [], Inl InvalidIdentifier))"
proof -
  have 1: "(snd (snd (resolveModel E st p)) = Inl InvalidIdentifier) =
     (resolveID E st p = Undefined \<or> resolveID E st p = Null
      \<or> resolveID E st p = Str [] \<or> resolveID E st p = Arr []
      \<or> (\<exists>fs. resolveID E st p = Obj fs \<and> loose_eq (toNumber E) (getf fs ''length'') (Num 0)))"
    by (simp only: resolveModel_invalid invalid_id_iff)
  have 2: "snd (snd (resolveModel E st p)) = Inl InvalidIdentifier \<longrightarrow>
        fst (resolveModel E st p) = [] \<and> fst (snd (resolveModel E st p)) = []"
    by (simp add: resolveModel_invalid) (simp add: resolveModel_def lookup_invalid_queries)
  have 3: "truthy (param_code p) \<and> nullish (param_id p) \<and> hashedIdentity st \<and> decodeID E = None \<longrightarrow>
        resolveModel E st p = ([], [], Inl InvalidIdentifier)"
  proof
    assume a: "truthy (param_code p) \<and> nullish (param_id p) \<and> hashedIdentity st \<and> decodeID E = None"
    then have "resolveID E st p = param_id p" by (simp add: resolveID_code_only)
    with a have "invalid_id E (resolveID E st p)" by (simp add: invalid_id_def)
    then show "resolveModel E st p = ([], [], Inl InvalidIdentifier)"
      by (simp add: resolveModel_def lookup_invalid_queries)
  qed
  from 1 2 3 show ?thesis by blast
qed

text \<open>The code \<open>XYZ\<close> alone, hashed identities, no decode function.\<close>

theorem resolveModel_invalid_identifier_witness:
  "truthy (param_code code_only_params) \<and> nullish (param_id code_only_params)
   \<and> hashedIdentity test_settings \<and> decodeID test_env = None
   \<and> resolveModel test_env test_settings code_only_params = ([], [], Inl InvalidIdentifier)"
  using resolveModel_invalid_identifier [of test_env test_settings code_only_params]
  by (simp add: code_only_params_def test_settings_def test_env_def nullish_def)

section \<open>populateModels\<close>




























section \<open>resolveModel: the shape of the result\<close>








text \<open>
  For a point lookup the last step does not look at \<open>resultAsObject\<close>, and without a
  property filter it returns what it was given. So the whole of \<^verbatim>\<open>resolveModel\<close> is
  independent of \<open>resultAsObject\<close> when the resolved identifier is not a sequence, and
  it never answers a point lookup with a keyed object.
\<close>

lemma shape_result_point_lookup:
  "shape_result E st (p\<lparr>resultAsObject := b\<rparr>) (Single d) = shape_result E st p (Single d)"
  "shape_result E st (p\<lparr>resultAsObject := b\<rparr>) NoDocs = shape_result E st p NoDocs"
  by (simp_all add: shape_result_def)

lemma shape_result_unfiltered:
  "nullish (propFilter p) \<Longrightarrow> shape_result E st p (Single d) = Inr (Plain (Single d))"
  "nullish (propFilter p) \<Longrightarrow> shape_result E st p NoDocs = Inr (Plain NoDocs)"
  by (simp_all add: shape_result_def)

lemma resolveID_resultAsObject:
  "resolveID E st (p\<lparr>resultAsObject := b\<rparr>) = resolveID E st p"
  by (simp add: resolveID_def split: option.splits jsval.splits)

lemma lookup_docs_resultAsObject:
  "lookup_docs E st (p\<lparr>resultAsObject := b\<rparr>) = lookup_docs E st p"
  by (simp add: lookup_docs_def resolveID_resultAsObject)

lemma lookup_docs_point:
  "lookup_docs E st p = (queries, Inr ds) \<Longrightarrow> \<forall>ids. resolveID E st p \<noteq> Arr ids \<Longrightarrow>
   ds = NoDocs \<or> (\<exists>d. ds = Single d)"
  by (auto simp: lookup_docs_def Let_def split: if_splits jsval.splits sum.splits option.splits)

lemma populateModels_point:
  "ds = NoDocs \<or> (\<exists>d. ds = Single d) \<Longrightarrow> snd (populateModels E st ds sch) = Inr ds' \<Longrightarrow>
   ds' = NoDocs \<or> (\<exists>d. ds' = Single d)"
proof -
  have ar: "\<And>calls ds ds'. apply_results E calls ds = Inr ds' \<Longrightarrow>
      ds = NoDocs \<or> (\<exists>d. ds = Single d) \<Longrightarrow> ds' = NoDocs \<or> (\<exists>d. ds' = Single d)"
  proof -
    fix calls ds ds'
    show "apply_results E calls ds = Inr ds' \<Longrightarrow>
      ds = NoDocs \<or> (\<exists>d. ds = Single d) \<Longrightarrow> ds' = NoDocs \<or> (\<exists>d. ds' = Single d)"
    proof (induction E calls ds rule: apply_results.induct)
      case (1 E ds)
      then show ?case by simp
    next
      case (2 E field actionName ps calls ds)
      from "2.prems"(1) obtain pd where pd: "ctx_call E actionName ps = Inr pd"
        and rest: "apply_results E calls (map_docs (replaceField field pd) ds) = Inr ds'"
        by (auto split: sum.splits)
      from "2.prems"(2) have "map_docs (replaceField field pd) ds = NoDocs
          \<or> (\<exists>d. map_docs (replaceField field pd) ds = Single d)"
        by (auto simp: map_docs_def)
      from "2.IH" [OF pd rest this] show ?case .
    qed
  qed
  assume "ds = NoDocs \<or> (\<exists>d. ds = Single d)"
    and "snd (populateModels E st ds sch) = Inr ds'"
  then show ?thesis
    by (auto simp: populateModels_def Let_def split: option.splits if_splits dest: ar)
qed

lemma resolveModel_point_lookup:
  assumes "\<forall>ids. resolveID E st p \<noteq> Arr ids"
  shows "resolveModel E st (p\<lparr>resultAsObject := b\<rparr>) = resolveModel E st p"
    and "snd (snd (resolveModel E st p)) \<noteq> Inr (Keyed docsObj)"
proof -
  obtain qs r where l: "lookup_docs E st p = (qs, r)" by (cases "lookup_docs E st p")
  show "resolveModel E st (p\<lparr>resultAsObject := b\<rparr>) = resolveModel E st p"
  proof (cases r)
    case (Inl e)
    with l show ?thesis by (simp add: resolveModel_def lookup_docs_resultAsObject)
  next
    case (Inr ds)
    from lookup_docs_point [OF l [unfolded Inr] assms]
    have pt: "ds = NoDocs \<or> (\<exists>d. ds = Single d)" .
    obtain cs r' where pm: "(if populate p = Bool True then populateModels E st ds None
        else ([], Inr ds)) = (cs, r')"
      by (cases "if populate p = Bool True then populateModels E st ds None else ([], Inr ds)")
    show ?thesis
    proof (cases r')
      case (Inl e)
      with l Inr pm show ?thesis by (simp add: resolveModel_def lookup_docs_resultAsObject)
    next
      case ds': (Inr ds')
      from pm ds' pt have "ds' = NoDocs \<or> (\<exists>d. ds' = Single d)"
        using populateModels_point [OF pt, of E st None ds'] by (auto split: if_splits)
      with l Inr pm ds' show ?thesis
        by (auto simp: resolveModel_def lookup_docs_resultAsObject shape_result_point_lookup)
    qed
  qed
  show "snd (snd (resolveModel E st p)) \<noteq> Inr (Keyed docsObj)"
  proof (cases r)
    case (Inl e)
    with l show ?thesis by (simp add: resolveModel_def)
  next
    case (Inr ds)
    from lookup_docs_point [OF l [unfolded Inr] assms]
    have pt: "ds = NoDocs \<or> (\<exists>d. ds = Single d)" .
    obtain cs r' where pm: "(if populate p = Bool True then populateModels E st ds None
        else ([], Inr ds)) = (cs, r')"
      by (cases "if populate p = Bool True then populateModels E st ds None else ([], Inr ds)")
    show ?thesis
    proof (cases r')
      case (Inl e)
      with l Inr pm show ?thesis by (simp add: resolveModel_def)
    next
      case ds': (Inr ds')
      from pm ds' pt have "ds' = NoDocs \<or> (\<exists>d. ds' = Single d)"
        using populateModels_point [OF pt, of E st None ds'] by (auto split: if_splits)
      with l Inr pm ds' show ?thesis
        by (auto simp: resolveModel_def shape_result_def)
    qed
  qed
qed

text \<open>
  Claim C10 says that a point lookup with \<open>resultAsObject = true\<close> returns the single
  entity. With a property filter in the parameters it does not: the last step calls
  \<^verbatim>\<open>docs.map\<close> on the entity, which is not a sequence, and the call fails with a type
  error after the store has been queried.
\<close>

theorem point_lookup_with_filter_raises:
  "resolveModel test_env test_settings point_lookup_params =
     ([FindById (Str ''a'')], [], Inl TypeError)"
proof -
  have "lookup_docs test_env test_settings point_lookup_params =
      ([FindById (Str ''a'')], Inr (Single tagged_doc))"
    by (simp add: lookup_docs_def resolveID_def point_lookup_params_def invalid_id_def
        nullish_def js_length_def loose_eq_def is_object_def to_primitive_def test_env_def
        Let_def)
  then show ?thesis
    by (simp add: resolveModel_def)
      (simp add: point_lookup_params_def shape_result_def nullish_def)
qed

end
